theory Spec2Isabelle
  imports Complex_Main
begin

section \<open>Numbers and dates\<close>

text \<open>
  The numbers of the program (latitudes, longitudes, altitudes, azimuths, headings) are
  modelled as reals: every value is a number (no NaN, no infinity). The arithmetic that
  only feeds a comparison (relative angles, differences of longitude) is exact. The
  arithmetic of the interpolated crossing time, whose result becomes a date of whole
  milliseconds, rounds the result of every operation to the nearest double, as the
  program does.
  A \<^verbatim>\<open>Date\<close> is its time value, an integer number of milliseconds since the epoch,
  at most 8.64e15 in magnitude and so a double.
\<close>

text \<open>Rounding to the nearest integer, a tie to the even one.\<close>

definition roundEven :: "real \<Rightarrow> int" where
  "roundEven y =
     (let f = \<lfloor>y\<rfloor>; r = y - real_of_int f
      in if r < 1 / 2 then f else if r > 1 / 2 then f + 1 else if even f then f else f + 1)"

text \<open>The binary exponent \<open>e\<close> of a number that is not 0: \<open>2^e \<le> |x| < 2^(e+1)\<close>.\<close>

definition binade :: "real \<Rightarrow> int" where
  "binade x = \<lfloor>log 2 \<bar>x\<bar>\<rfloor>"

text \<open>
  The double nearest to a real, a tie to the even significand: 53 significant bits, so
  the multiples of \<open>2^(e-52)\<close> in the binade \<open>e\<close>, and of \<open>2^(-1074)\<close> below the
  normal range. Numbers so large that they round to an infinity (to \<open>2^1024\<close> here)
  are not modelled.
\<close>

definition roundDouble :: "real \<Rightarrow> real" where
  "roundDouble x =
     (if x = 0 then 0
      else (let u = 2 powr (real_of_int (max (binade x) (- 1022)) - 52)
            in u * real_of_int (roundEven (x / u))))"

text \<open>Truncation toward zero, as ToIntegerOrInfinity does.\<close>

definition trunc :: "real \<Rightarrow> int" where
  "trunc x = (if 0 \<le> x then \<lfloor>x\<rfloor> else \<lceil>x\<rceil>)"

text \<open>
  The remainder operator \<^verbatim>\<open>a % b\<close> on numbers: the result has the sign of the
  dividend, \<open>a - b * trunc (a / b)\<close>.
\<close>

definition js_rem :: "real \<Rightarrow> real \<Rightarrow> real" where
  "js_rem a b = a - b * real_of_int (trunc (a / b))"

text \<open>
  \<^verbatim>\<open>new Date(value)\<close> for a number: TimeClip gives an invalid date (\<open>None\<close>) beyond
  8.64e15 ms and otherwise drops the fraction of a millisecond.
\<close>

definition newDate :: "real \<Rightarrow> int option" where
  "newDate v = (if \<bar>v\<bar> > 8640000000000000 then None else Some (trunc v))"

section \<open>Data\<close>

text \<open>An element of \<^verbatim>\<open>sunPoints\<close>, as \<^verbatim>\<open>interpolateSunAlongRoute\<close> returns them.\<close>

record sun_point =
  lat :: real
  lon :: real
  time :: int
  altitude :: real
  azimuth :: real

text \<open>
  The counters of the side tally of \<^verbatim>\<open>handleSubmit\<close> (local variables of the source).
\<close>

record tally =
  leftCount :: nat
  rightCount :: nat
  aheadCount :: nat
  behindCount :: nat
  sunVisible :: bool
  sunIntervals :: nat

definition tally0 :: tally where
  "tally0 = \<lparr>leftCount = 0, rightCount = 0, aheadCount = 0, behindCount = 0,
             sunVisible = False, sunIntervals = 0\<rparr>"

section \<open>Side classification\<close>

text \<open>
  The chain of comparisons that picks the counter to increment, in the order of the source:
  \<^verbatim>\<open>
  if (relAngle > 45 && relAngle <= 135) rightCount++;
  else if (relAngle > 225 && relAngle <= 315) leftCount++;
  else if (relAngle > 315 || relAngle <= 45) aheadCount++;
  else if (relAngle > 135 && relAngle <= 225) behindCount++;
  \<close>
\<close>

definition countQuadrant :: "real \<Rightarrow> tally \<Rightarrow> tally" where
  "countQuadrant relAngle t =
     (if relAngle > 45 \<and> relAngle \<le> 135 then t\<lparr>rightCount := rightCount t + 1\<rparr>
      else if relAngle > 225 \<and> relAngle \<le> 315 then t\<lparr>leftCount := leftCount t + 1\<rparr>
      else if relAngle > 315 \<or> relAngle \<le> 45 then t\<lparr>aheadCount := aheadCount t + 1\<rparr>
      else if relAngle > 135 \<and> relAngle \<le> 225 then t\<lparr>behindCount := behindCount t + 1\<rparr>
      else t)"

text \<open>
  The body of the tally loop for index \<open>i\<close>. \<^verbatim>\<open>getInitialBearing\<close> comes from
  \<^verbatim>\<open>sunUtils\<close> and is a parameter here.
\<close>

definition tallyStep ::
  "(real \<Rightarrow> real \<Rightarrow> real \<Rightarrow> real \<Rightarrow> real) \<Rightarrow> sun_point list \<Rightarrow> nat \<Rightarrow> tally \<Rightarrow> tally" where
  "tallyStep getInitialBearing sunPoints i t =
     (let p1 = sunPoints ! i;
          p2 = sunPoints ! (i + 1);
          heading = getInitialBearing (lat p1) (lon p1) (lat p2) (lon p2);
          relAngle = js_rem (azimuth p1 - heading + 360) 360
      in if altitude p1 < 0 then t
         else countQuadrant relAngle (t\<lparr>sunVisible := True, sunIntervals := sunIntervals t + 1\<rparr>))"

text \<open>
  \<^verbatim>\<open>for (let i = 0; i < sunPoints.length - 1; i++)\<close>: no iteration for an empty list.
\<close>

definition tallyLoop ::
  "(real \<Rightarrow> real \<Rightarrow> real \<Rightarrow> real \<Rightarrow> real) \<Rightarrow> sun_point list \<Rightarrow> tally" where
  "tallyLoop getInitialBearing sunPoints =
     fold (tallyStep getInitialBearing sunPoints) [0..<length sunPoints - 1] tally0"

text \<open>\<^verbatim>\<open>const totalIntervals = sunPoints.length - 1\<close>, which is -1 for no sample.\<close>

definition totalIntervals :: "sun_point list \<Rightarrow> int" where
  "totalIntervals sunPoints = int (length sunPoints) - 1"

text \<open>The seat recommendation computed from the counters.\<close>

definition seat :: "tally \<Rightarrow> string" where
  "seat t =
     (if \<not> sunVisible t then ''Neither (Sun not visible during flight)''
      else if leftCount t > rightCount t then ''Left''
      else if rightCount t > leftCount t then ''Right''
      else if leftCount t > 0 then ''Left''
      else ''Neither (Sun not visible during flight)'')"

definition recommendation ::
  "(real \<Rightarrow> real \<Rightarrow> real \<Rightarrow> real \<Rightarrow> real) \<Rightarrow> sun_point list \<Rightarrow> string" where
  "recommendation getInitialBearing sunPoints = seat (tallyLoop getInitialBearing sunPoints)"

text \<open>The relative angle of interval \<open>i\<close>, as the tally loop computes it.\<close>

definition relAngleAt ::
  "(real \<Rightarrow> real \<Rightarrow> real \<Rightarrow> real \<Rightarrow> real) \<Rightarrow> sun_point list \<Rightarrow> nat \<Rightarrow> real" where
  "relAngleAt getInitialBearing sunPoints i =
     js_rem (azimuth (sunPoints ! i)
             - getInitialBearing (lat (sunPoints ! i)) (lon (sunPoints ! i))
                 (lat (sunPoints ! (i + 1))) (lon (sunPoints ! (i + 1)))
             + 360) 360"

section \<open>Sunrise and sunset events\<close>

text \<open>
  What \<^verbatim>\<open>SunCalc.getTimes\<close> returns, as far as the program reads it. \<open>None\<close> is a
  time that is missing or an invalid date, for which
  \<^verbatim>\<open>eventTime && eventTime >= a && eventTime <= b\<close> is false.
\<close>

record sun_times =
  sunrise :: "int option"
  sunset :: "int option"

datatype event_type = Sunrise | Sunset

text \<open>
  An element of \<^verbatim>\<open>events\<close>; the fields \<^verbatim>\<open>type, time, lat, lon, azimuth, position\<close>
  of the source carry the prefix \<open>ev_\<close> here.
\<close>

record sun_event =
  ev_type :: event_type
  ev_time :: "int option"
  ev_lat :: real
  ev_lon :: real
  ev_azimuth :: real
  ev_position :: string

text \<open>
  The label of the relative sun position, in the order of the source:
  \<^verbatim>\<open>
  let position = '';
  if (relAngle > 45 && relAngle <= 135) position = 'Right';
  else if (relAngle > 225 && relAngle <= 315) position = 'Left';
  else if (relAngle > 315 || relAngle <= 45) position = 'Ahead';
  else if (relAngle > 135 && relAngle <= 225) position = 'Behind';
  \<close>
\<close>

definition positionOf :: "real \<Rightarrow> string" where
  "positionOf relAngle =
     (if relAngle > 45 \<and> relAngle \<le> 135 then ''Right''
      else if relAngle > 225 \<and> relAngle \<le> 315 then ''Left''
      else if relAngle > 315 \<or> relAngle \<le> 45 then ''Ahead''
      else if relAngle > 135 \<and> relAngle \<le> 225 then ''Behind''
      else [])"

text \<open>\<^verbatim>\<open>eventTime && eventTime >= sunPoints[i-1].time && eventTime <= p.time\<close>\<close>

definition inBracket :: "int option \<Rightarrow> int \<Rightarrow> int \<Rightarrow> bool" where
  "inBracket eventTime t0 t1 = (case eventTime of None \<Rightarrow> False | Some e \<Rightarrow> t0 \<le> e \<and> e \<le> t1)"

text \<open>
  The body of the event loop for index \<open>i\<close>; the state is \<^verbatim>\<open>events\<close> and
  \<^verbatim>\<open>prevAlt\<close> (\<open>None\<close> for \<^verbatim>\<open>null\<close>). \<^verbatim>\<open>SunCalc.getTimes\<close> and
  \<^verbatim>\<open>getInitialBearing\<close> are parameters. In
  \<^verbatim>\<open>new Date(t0 + frac * (p.time.getTime() - t0))\<close> the subtraction, the product and
  the sum are each rounded to a double, as are the difference and the quotient of
  \<^verbatim>\<open>frac\<close>. The divisor of \<^verbatim>\<open>frac\<close> is the rounded difference of two altitudes
  of opposite sides of the horizon, which is not 0 when the altitudes are doubles.
\<close>

definition eventStep ::
  "(int \<Rightarrow> real \<Rightarrow> real \<Rightarrow> sun_times) \<Rightarrow> (real \<Rightarrow> real \<Rightarrow> real \<Rightarrow> real \<Rightarrow> real) \<Rightarrow> sun_point list \<Rightarrow> nat
     \<Rightarrow> sun_event list \<times> real option \<Rightarrow> sun_event list \<times> real option" where
  "eventStep getTimes getInitialBearing sunPoints i s =
     (let events = fst s;
          prevAlt = snd s;
          p = sunPoints ! i;
          times = getTimes (time p) (lat p) (lon p);
          heading =
            (if i < length sunPoints - 1
             then (let p2 = sunPoints ! (i + 1) in getInitialBearing (lat p) (lon p) (lat p2) (lon p2))
             else if i > 0
             then (let p1 = sunPoints ! (i - 1) in getInitialBearing (lat p1) (lon p1) (lat p) (lon p))
             else 0);
          relAngle = js_rem (azimuth p - heading + 360) 360;
          position = positionOf relAngle;
          events1 =
            (case prevAlt of
               None \<Rightarrow> events
             | Some prev \<Rightarrow>
                 if prev < 0 \<and> altitude p \<ge> 0
                 then (let t0 = time (sunPoints ! (i - 1));
                           eventTime =
                             (if \<not> inBracket (sunrise times) t0 (time p)
                              then (let frac = roundDouble (- prev / roundDouble (altitude p - prev))
                                    in newDate (roundDouble (real_of_int t0
                                         + roundDouble (frac
                                             * roundDouble (real_of_int (time p) - real_of_int t0)))))
                              else sunrise times)
                       in events @ [\<lparr>ev_type = Sunrise, ev_time = eventTime, ev_lat = lat p,
                                      ev_lon = lon p, ev_azimuth = azimuth p, ev_position = position\<rparr>])
                 else events);
          events2 =
            (case prevAlt of
               None \<Rightarrow> events1
             | Some prev \<Rightarrow>
                 if prev \<ge> 0 \<and> altitude p < 0
                 then (let t0 = time (sunPoints ! (i - 1));
                           eventTime =
                             (if \<not> inBracket (sunset times) t0 (time p)
                              then (let frac = roundDouble (prev / roundDouble (prev - altitude p))
                                    in newDate (roundDouble (real_of_int t0
                                         + roundDouble (frac
                                             * roundDouble (real_of_int (time p) - real_of_int t0)))))
                              else sunset times)
                       in events1 @ [\<lparr>ev_type = Sunset, ev_time = eventTime, ev_lat = lat p,
                                       ev_lon = lon p, ev_azimuth = azimuth p, ev_position = position\<rparr>])
                 else events1)
      in (events2, Some (altitude p)))"

text \<open>\<^verbatim>\<open>for (let i = 0; i < sunPoints.length; i++)\<close>, from no event and \<^verbatim>\<open>prevAlt = null\<close>.\<close>

definition detectSunEvents ::
  "(int \<Rightarrow> real \<Rightarrow> real \<Rightarrow> sun_times) \<Rightarrow> (real \<Rightarrow> real \<Rightarrow> real \<Rightarrow> real \<Rightarrow> real) \<Rightarrow> sun_point list
     \<Rightarrow> sun_event list" where
  "detectSunEvents getTimes getInitialBearing sunPoints =
     fst (fold (eventStep getTimes getInitialBearing sunPoints) [0..<length sunPoints] ([], None))"

section \<open>Splitting the flight path at the date line\<close>

text \<open>A point of the path is the pair \<^verbatim>\<open>[lat, lon]\<close>.\<close>

type_synonym point = "real \<times> real"

text \<open>
  The body of the splitting loop of \<^verbatim>\<open>createFlightPath\<close> for one point; the state is
  \<^verbatim>\<open>segments\<close> and \<^verbatim>\<open>currentSegment\<close>.
\<close>

definition segmentStep :: "point \<Rightarrow> point list list \<times> point list \<Rightarrow> point list list \<times> point list" where
  "segmentStep point s =
     (let segments = fst s; currentSegment = snd s
      in if length currentSegment = 0 then (segments, currentSegment @ [point])
         else (let prevPoint = last currentSegment;
                   lonDiff = \<bar>snd point - snd prevPoint\<bar>
               in if lonDiff > 180
                  then ((if length currentSegment > 0 then segments @ [currentSegment] else segments),
                        [point])
                  else (segments, currentSegment @ [point])))"

text \<open>The loop over the points, then \<^verbatim>\<open>if (currentSegment.length > 0) segments.push(currentSegment)\<close>.\<close>

definition segmentPoints :: "point list \<Rightarrow> point list list" where
  "segmentPoints points =
     (let s = fold segmentStep points ([], []);
          segments = fst s; currentSegment = snd s
      in if length currentSegment > 0 then segments @ [currentSegment] else segments)"

text \<open>
  \<^verbatim>\<open>createFlightPath\<close>: 21 points at the fractions \<open>i / 20\<close>, then the split.
  \<^verbatim>\<open>interpolateGreatCircle\<close> comes from \<^verbatim>\<open>sunUtils\<close> and is a parameter; it returns
  the pair of \<^verbatim>\<open>lat\<close> and \<^verbatim>\<open>lon\<close>.
\<close>

definition createFlightPath ::
  "(real \<Rightarrow> real \<Rightarrow> real \<Rightarrow> real \<Rightarrow> real \<Rightarrow> point) \<Rightarrow> real \<Rightarrow> real \<Rightarrow> real \<Rightarrow> real \<Rightarrow> point list list" where
  "createFlightPath interpolateGreatCircle lat1 lon1 lat2 lon2 =
     (let steps = 20;
          points = map (\<lambda>i. let frac = real i / real steps
                             in interpolateGreatCircle lat1 lon1 lat2 lon2 frac) [0..<steps + 1]
      in segmentPoints points)"

section \<open>Sampling the route\<close>

text \<open>
  \<^verbatim>\<open>interpolateSunAlongRoute\<close> is defined in \<^verbatim>\<open>sunUtils\<close>, which is not among the
  sources; the specification describes it as \<open>sampleRoute\<close>.
\<close>

record route_sample =
  position :: point
  timestamp :: real
  sunAltitude :: real
  sunAzimuth :: real

datatype error = InvalidInput

text \<open>
  Modelled from the spec: the fraction of sample \<open>i\<close> of \<open>sampleRoute\<close>,
  \<open>min(i*intervalMinutes/(durationHours*60), 1)\<close>.
\<close>

definition sampleFraction :: "real \<Rightarrow> real \<Rightarrow> nat \<Rightarrow> real" where
  "sampleFraction durationHours intervalMinutes i =
     min (real i * intervalMinutes / (durationHours * 60)) 1"

text \<open>
  Modelled from the spec: \<open>sampleRoute\<close> (section 4.2), whose code
  (\<^verbatim>\<open>interpolateSunAlongRoute\<close> of \<^verbatim>\<open>sunUtils\<close>) is missing. Let
  \<open>n = ceil(durationHours*60/intervalMinutes)\<close>; for \<open>i = 0..n\<close> the sample has
  \<open>position = greatCirclePoint(origin, destination, fraction)\<close>,
  \<open>timestamp = departureUTC + fraction*durationHours\<close> hours and the solar state of the
  external ephemeris at that time and position. It fails with InvalidInput when
  \<open>durationHours \<le> 0\<close> or \<open>intervalMinutes \<le> 0\<close>. Instants are counted in hours;
  \<open>greatCirclePoint\<close> and the ephemeris are parameters.
\<close>

definition sampleRoute ::
  "(point \<Rightarrow> point \<Rightarrow> real \<Rightarrow> point) \<Rightarrow> (real \<Rightarrow> point \<Rightarrow> real \<times> real)
     \<Rightarrow> point \<Rightarrow> point \<Rightarrow> real \<Rightarrow> real \<Rightarrow> real \<Rightarrow> error + route_sample list" where
  "sampleRoute greatCirclePoint solarState origin destination departureUTC durationHours intervalMinutes =
     (if durationHours \<le> 0 \<or> intervalMinutes \<le> 0 then Inl InvalidInput
      else (let n = nat \<lceil>durationHours * 60 / intervalMinutes\<rceil>
            in Inr (map (\<lambda>i. let fraction = sampleFraction durationHours intervalMinutes i;
                                  pos = greatCirclePoint origin destination fraction;
                                  ts = departureUTC + fraction * durationHours;
                                  sun = solarState ts pos
                              in \<lparr>position = pos, timestamp = ts,
                                  sunAltitude = fst sun, sunAzimuth = snd sun\<rparr>)
                        [0..<n + 1])))"

section \<open>Concrete inputs\<close>

text \<open>
  Modelled from the spec: \<open>initialBearing\<close> (\<^verbatim>\<open>getInitialBearing\<close> of \<^verbatim>\<open>sunUtils\<close>,
  which is not among the sources), the forward azimuth in degrees from the first point
  toward the second, on the courses where it is a whole number: 0 due north and 180 due
  south along a meridian, 90 due east and 270 due west along the equator, the shorter way
  round between two longitudes that are not opposite. It stands for the bearing when a
  loop is evaluated at samples on such courses; any other course is given 0 and is not
  used.
\<close>

definition cardinalBearing :: "real \<Rightarrow> real \<Rightarrow> real \<Rightarrow> real \<Rightarrow> real" where
  "cardinalBearing lat1 lon1 lat2 lon2 =
     (if lon1 = lon2 then (if lat2 < lat1 then 180 else 0)
      else if lat1 = 0 \<and> lat2 = 0
      then (if 0 < lon2 - lon1 \<and> lon2 - lon1 < 180 \<or> lon2 - lon1 < - 180 then 90 else 270)
      else 0)"

text \<open>An ephemeris that gives no sunrise and no sunset time.\<close>

definition noTimes :: "int \<Rightarrow> real \<Rightarrow> real \<Rightarrow> sun_times" where
  "noTimes t la lo = \<lparr>sunrise = None, sunset = None\<rparr>"

text \<open>
  Two samples ten minutes apart on a course due north from the equator, the sun above the
  horizon at the given azimuth.
\<close>

definition northbound :: "real \<Rightarrow> sun_point list" where
  "northbound az =
     [\<lparr>lat = 0, lon = 0, time = 0, altitude = 10, azimuth = az\<rparr>,
      \<lparr>lat = 10, lon = 0, time = 600000, altitude = 10, azimuth = az\<rparr>]"

text \<open>
  Two samples ten minutes apart on a course due east along the equator, the sun due east,
  with the given altitudes.
\<close>

definition dawn :: "real \<Rightarrow> real \<Rightarrow> sun_point list" where
  "dawn a0 a1 =
     [\<lparr>lat = 0, lon = 0, time = 0, altitude = a0, azimuth = 90\<rparr>,
      \<lparr>lat = 0, lon = 10, time = 600000, altitude = a1, azimuth = 90\<rparr>]"

text \<open>
  Three samples ten minutes apart: due east along the equator, then due north along the
  meridian of 10 degrees; the sun, due east, rises between the first two.
\<close>

definition risingEast :: "sun_point list" where
  "risingEast =
     [\<lparr>lat = 0, lon = 0, time = 0, altitude = -5, azimuth = 90\<rparr>,
      \<lparr>lat = 0, lon = 10, time = 600000, altitude = 3, azimuth = 90\<rparr>,
      \<lparr>lat = 10, lon = 10, time = 1200000, altitude = 10, azimuth = 90\<rparr>]"

text \<open>Four points of a path that crosses the date line between the second and the third.\<close>

definition crossing :: "point list" where
  "crossing = [(0, 170), (1, 179), (2, -179), (3, -170)]"

text \<open>
  Modelled from the spec: \<open>greatCirclePoint\<close> (\<^verbatim>\<open>interpolateGreatCircle\<close> of
  \<^verbatim>\<open>sunUtils\<close>, which is not among the sources) between two points of one meridian,
  where the spherical interpolation is linear in the latitude. It stands for the
  interpolation when the sampler is evaluated on such a route.
\<close>

definition meridianPoint :: "point \<Rightarrow> point \<Rightarrow> real \<Rightarrow> point" where
  "meridianPoint p1 p2 t = (fst p1 + t * (fst p2 - fst p1), snd p1)"

text \<open>An ephemeris that puts the sun at altitude 10, due south, everywhere.\<close>

definition fixedSun :: "real \<Rightarrow> point \<Rightarrow> real \<times> real" where
  "fixedSun ts pos = (10, 180)"

section \<open>Auxiliary notions of the proofs\<close>

text \<open>
  The events that the iteration for sample \<open>i + 1\<close> pushes when \<^verbatim>\<open>prevAlt\<close> is the
  altitude of sample \<open>i\<close>: the events of the pair \<open>(i, i + 1)\<close>.
\<close>

definition pairEvents ::
  "(int \<Rightarrow> real \<Rightarrow> real \<Rightarrow> sun_times) \<Rightarrow> (real \<Rightarrow> real \<Rightarrow> real \<Rightarrow> real \<Rightarrow> real) \<Rightarrow> sun_point list \<Rightarrow> nat
     \<Rightarrow> sun_event list" where
  "pairEvents getTimes getInitialBearing sunPoints i =
     fst (eventStep getTimes getInitialBearing sunPoints (i + 1) ([], Some (altitude (sunPoints ! i))))"

text \<open>
  The invariant of the splitting loop: every closed segment is non-empty and has no
  longitude step above 180 inside, neither has the current segment, every two neighbouring
  segments are separated by a step above 180, and the current segment is empty only before
  the first point.
\<close>

definition segInv :: "point list list \<times> point list \<Rightarrow> bool" where
  "segInv s =
     ((\<forall>seg \<in> set (fst s). seg \<noteq> [] \<and> successively (\<lambda>p q. \<bar>snd q - snd p\<bar> \<le> 180) seg)
      \<and> successively (\<lambda>p q. \<bar>snd q - snd p\<bar> \<le> 180) (snd s)
      \<and> successively (\<lambda>a b. \<bar>snd (hd b) - snd (last a)\<bar> > 180)
            (fst s @ (if snd s = [] then [] else [snd s]))
      \<and> (snd s = [] \<longrightarrow> fst s = []))"

section \<open>Arithmetic of the remainder\<close>

lemma js_rem_less: "js_rem a 360 < 360"
proof (cases "0 \<le> a")
  case True
  have "a < 360 * real_of_int \<lfloor>a / 360\<rfloor> + 360" by linarith
  then show ?thesis using True by (simp add: js_rem_def trunc_def)
next
  case False
  have "a \<le> 360 * real_of_int \<lceil>a / 360\<rceil>" by linarith
  then show ?thesis using False by (simp add: js_rem_def trunc_def)
qed

lemma js_rem_nonneg: "0 \<le> a \<Longrightarrow> 0 \<le> js_rem a 360"
proof -
  assume a: "0 \<le> a"
  have "360 * real_of_int \<lfloor>a / 360\<rfloor> \<le> a" by linarith
  then show ?thesis using a by (simp add: js_rem_def trunc_def)
qed

section \<open>Rounding to a double\<close>

lemma roundEven_of_int: "roundEven (real_of_int k) = k"
  by (simp add: roundEven_def)

lemma binade_eqI:
  assumes "2 powr (real_of_int e) \<le> \<bar>x\<bar>" and "\<bar>x\<bar> < 2 powr (real_of_int e + 1)"
  shows "binade x = e"
proof -
  have pos: "0 < \<bar>x\<bar>"
    using assms(1) by (smt (verit) powr_gt_zero)
  have "real_of_int e \<le> log 2 \<bar>x\<bar>"
    using assms(1) pos by (simp add: le_log_iff)
  moreover have "log 2 \<bar>x\<bar> < real_of_int e + 1"
    using assms(2) pos by (simp add: log_less_iff)
  ultimately show ?thesis
    unfolding binade_def by linarith
qed

text \<open>The rounding of a number of magnitude at least 1, in the binade \<open>n\<close>.\<close>

lemma roundDouble_up:
  assumes "2 ^ n \<le> \<bar>x\<bar>" and "\<bar>x\<bar> < 2 * 2 ^ n"
  shows "roundDouble x = real_of_int (roundEven (x * 2 ^ 52 / 2 ^ n)) * 2 ^ n / 2 ^ 52"
proof -
  have b: "binade x = int n"
    using assms by (intro binade_eqI) (simp_all add: powr_realpow powr_add)
  have x0: "x \<noteq> 0" using assms(1)
    by (smt (verit) zero_less_power abs_zero)
  have u: "2 powr (real_of_int (max (binade x) (- 1022)) - 52) = (2::real) ^ n / 2 ^ 52"
    unfolding b by (simp add: powr_diff powr_realpow)
  have "roundDouble x = 2 ^ n / 2 ^ 52 * real_of_int (roundEven (x / (2 ^ n / 2 ^ 52)))"
    unfolding roundDouble_def Let_def u using x0 by (simp only: if_False)
  also have "x / (2 ^ n / 2 ^ 52) = x * 2 ^ 52 / 2 ^ n"
    by (simp only: divide_divide_eq_right)
  finally show ?thesis
    by (simp only: times_divide_eq_left mult.commute)
qed

text \<open>The rounding of a number of magnitude below 1, in the binade \<open>- n\<close>.\<close>

lemma roundDouble_down:
  assumes "n \<le> 1022" and "1 \<le> \<bar>x\<bar> * 2 ^ n" and "\<bar>x\<bar> * 2 ^ n < 2"
  shows "roundDouble x = real_of_int (roundEven (x * 2 ^ 52 * 2 ^ n)) / (2 ^ 52 * 2 ^ n)"
proof -
  have p: "2 powr (- real n) = 1 / (2::real) ^ n"
    by (simp add: powr_minus powr_realpow divide_simps)
  have b: "binade x = - int n"
  proof (intro binade_eqI)
    show "2 powr real_of_int (- int n) \<le> \<bar>x\<bar>"
      using assms(2) by (simp add: p pos_divide_le_eq)
    have "2 powr (real_of_int (- int n) + 1) = 2 / (2::real) ^ n"
      by (simp add: powr_diff powr_realpow)
    then show "\<bar>x\<bar> < 2 powr (real_of_int (- int n) + 1)"
      using assms(3) by (simp add: pos_less_divide_eq)
  qed
  have x0: "x \<noteq> 0" using assms(2) by auto
  have m: "max (- int n) (- 1022) = - int n" using assms(1) by simp
  have u: "2 powr (real_of_int (max (binade x) (- 1022)) - 52) = 1 / ((2::real) ^ 52 * 2 ^ n)"
    unfolding b m using p by (simp add: powr_diff powr_realpow)
  have "roundDouble x = 1 / (2 ^ 52 * 2 ^ n) * real_of_int (roundEven (x / (1 / (2 ^ 52 * 2 ^ n))))"
    unfolding roundDouble_def Let_def u using x0 by (simp only: if_False)
  also have "x / (1 / (2 ^ 52 * 2 ^ n)) = x * 2 ^ 52 * 2 ^ n"
    by (simp only: divide_divide_eq_right mult.assoc div_by_1)
  finally show ?thesis
    by (simp only: times_divide_eq_left mult_1)
qed

text \<open>Every integer below \<open>2^53\<close> in magnitude is a double.\<close>

lemma roundDouble_of_int:
  assumes "\<bar>z\<bar> < 2 ^ 53"
  shows "roundDouble (real_of_int z) = real_of_int z"
proof (cases "z = 0")
  case True
  then show ?thesis by (simp add: roundDouble_def)
next
  case False
  define e where "e = binade (real_of_int z)"
  have one: "1 \<le> \<bar>real_of_int z\<bar>" using False by linarith
  then have "0 \<le> log 2 \<bar>real_of_int z\<bar>" by simp
  then have e0: "0 \<le> e" by (simp add: e_def binade_def)
  have "real_of_int \<bar>z\<bar> < real_of_int (2 ^ 53)"
    using assms by (simp only: of_int_less_iff)
  then have "\<bar>real_of_int z\<bar> < 2 ^ 53" by simp
  then have "log 2 \<bar>real_of_int z\<bar> < 53"
    using one by (simp add: log_less_iff)
  then have e52: "e \<le> 52" unfolding e_def binade_def by linarith
  define k where "k = nat (52 - e)"
  have ek: "real_of_int e - 52 = - real k"
    using e52 by (simp add: k_def)
  have m: "max e (- 1022) = e" using e0 by simp
  have u: "2 powr (real_of_int (max e (- 1022)) - 52) = 1 / (2::real) ^ k"
    unfolding m ek by (simp add: powr_minus powr_realpow divide_simps)
  have "real_of_int z / (1 / 2 ^ k) = real_of_int (z * 2 ^ k)" by simp
  then have r: "roundEven (real_of_int z / (1 / 2 ^ k)) = z * 2 ^ k"
    by (simp only: roundEven_of_int)
  have z0: "real_of_int z \<noteq> 0" using False by simp
  have "roundDouble (real_of_int z) = 1 / 2 ^ k * real_of_int (z * 2 ^ k)"
    unfolding roundDouble_def e_def [symmetric] Let_def u r using z0 by (simp only: if_False)
  then show ?thesis by simp
qed

section \<open>Properties of the tally loop\<close>

lemma tallyStep_cases:
  "tallyStep b ps i t =
     (if altitude (ps ! i) < 0 then t
      else countQuadrant (relAngleAt b ps i)
             (t\<lparr>sunVisible := True, sunIntervals := sunIntervals t + 1\<rparr>))"
  by (simp add: tallyStep_def relAngleAt_def Let_def)

lemma countQuadrant_sunIntervals [simp]: "sunIntervals (countQuadrant r t) = sunIntervals t"
  by (simp add: countQuadrant_def)

lemma countQuadrant_sunVisible [simp]: "sunVisible (countQuadrant r t) = sunVisible t"
  by (simp add: countQuadrant_def)

lemma countQuadrant_right:
  "rightCount (countQuadrant r t) = rightCount t + (if 45 < r \<and> r \<le> 135 then 1 else 0)"
  by (simp add: countQuadrant_def)

lemma countQuadrant_left:
  "leftCount (countQuadrant r t) = leftCount t + (if 225 < r \<and> r \<le> 315 then 1 else 0)"
  by (simp add: countQuadrant_def)

lemma countQuadrant_ahead:
  "aheadCount (countQuadrant r t) = aheadCount t + (if 315 < r \<or> r \<le> 45 then 1 else 0)"
  by (simp add: countQuadrant_def)

lemma countQuadrant_behind:
  "behindCount (countQuadrant r t) = behindCount t + (if 135 < r \<and> r \<le> 225 then 1 else 0)"
  by (simp add: countQuadrant_def)

lemma countQuadrant_total:
  "leftCount (countQuadrant r t) + rightCount (countQuadrant r t)
     + aheadCount (countQuadrant r t) + behindCount (countQuadrant r t)
   = leftCount t + rightCount t + aheadCount t + behindCount t + 1"
  by (simp add: countQuadrant_def)

lemma fold_sunIntervals:
  "sunIntervals (fold (tallyStep b ps) ixs t)
   = sunIntervals t + length (filter (\<lambda>i. 0 \<le> altitude (ps ! i)) ixs)"
  by (induction ixs arbitrary: t) (simp_all add: tallyStep_cases)

lemma fold_sunVisible:
  "sunVisible (fold (tallyStep b ps) ixs t)
   = (sunVisible t \<or> filter (\<lambda>i. 0 \<le> altitude (ps ! i)) ixs \<noteq> [])"
  by (induction ixs arbitrary: t) (auto simp add: tallyStep_cases)

lemma fold_rightCount:
  "rightCount (fold (tallyStep b ps) ixs t)
   = rightCount t + length (filter (\<lambda>i. 0 \<le> altitude (ps ! i)
       \<and> 45 < relAngleAt b ps i \<and> relAngleAt b ps i \<le> 135) ixs)"
  by (induction ixs arbitrary: t) (simp_all add: tallyStep_cases countQuadrant_right)

lemma fold_leftCount:
  "leftCount (fold (tallyStep b ps) ixs t)
   = leftCount t + length (filter (\<lambda>i. 0 \<le> altitude (ps ! i)
       \<and> 225 < relAngleAt b ps i \<and> relAngleAt b ps i \<le> 315) ixs)"
  by (induction ixs arbitrary: t) (simp_all add: tallyStep_cases countQuadrant_left)

lemma fold_aheadCount:
  "aheadCount (fold (tallyStep b ps) ixs t)
   = aheadCount t + length (filter (\<lambda>i. 0 \<le> altitude (ps ! i)
       \<and> (315 < relAngleAt b ps i \<or> relAngleAt b ps i \<le> 45)) ixs)"
  by (induction ixs arbitrary: t) (simp_all add: tallyStep_cases countQuadrant_ahead)

lemma fold_behindCount:
  "behindCount (fold (tallyStep b ps) ixs t)
   = behindCount t + length (filter (\<lambda>i. 0 \<le> altitude (ps ! i)
       \<and> 135 < relAngleAt b ps i \<and> relAngleAt b ps i \<le> 225) ixs)"
  by (induction ixs arbitrary: t) (simp_all add: tallyStep_cases countQuadrant_behind)

lemma fold_total:
  "leftCount (fold (tallyStep b ps) ixs t) + rightCount (fold (tallyStep b ps) ixs t)
     + aheadCount (fold (tallyStep b ps) ixs t) + behindCount (fold (tallyStep b ps) ixs t)
     + sunIntervals t
   = leftCount t + rightCount t + aheadCount t + behindCount t
     + sunIntervals (fold (tallyStep b ps) ixs t)"
proof (induction ixs arbitrary: t)
  case Nil
  show ?case by simp
next
  case (Cons i ixs)
  show ?case
  proof (cases "altitude (ps ! i) < 0")
    case True
    then show ?thesis using Cons.IH [of t] by (simp add: tallyStep_cases)
  next
    case False
    define t' where "t' = countQuadrant (relAngleAt b ps i)
      (t\<lparr>sunVisible := True, sunIntervals := sunIntervals t + 1\<rparr>)"
    have step: "tallyStep b ps i t = t'"
      using False by (simp add: tallyStep_cases t'_def)
    have cnt: "leftCount t' + rightCount t' + aheadCount t' + behindCount t'
               = leftCount t + rightCount t + aheadCount t + behindCount t + 1"
      unfolding t'_def using countQuadrant_total [of "relAngleAt b ps i"
        "t\<lparr>sunVisible := True, sunIntervals := sunIntervals t + 1\<rparr>"] by simp
    have si: "sunIntervals t' = sunIntervals t + 1"
      by (simp add: t'_def)
    show ?thesis using Cons.IH [of t'] cnt si by (simp add: step)
  qed
qed

lemma fold_skip_hidden:
  "fold (tallyStep b ps) ixs t
   = fold (tallyStep b ps) (filter (\<lambda>i. 0 \<le> altitude (ps ! i)) ixs) t"
  by (induction ixs arbitrary: t) (simp_all add: tallyStep_cases)

section \<open>The side tally and the recommendation\<close>

text \<open>
  C1. For every sample sequence the recommendation follows the policy: with no visible
  interval it is the outcome "Neither (Sun not visible during flight)"; otherwise it is
  "Left" when leftCount is strictly greater than rightCount, "Right" when rightCount is
  strictly greater than leftCount, and on a tie "Left" when leftCount is positive and the
  "Neither" outcome when leftCount is zero.
\<close>

theorem recommendation_policy:
  "recommendation b ps =
     (if sunIntervals (tallyLoop b ps) = 0 then ''Neither (Sun not visible during flight)''
      else if leftCount (tallyLoop b ps) > rightCount (tallyLoop b ps) then ''Left''
      else if rightCount (tallyLoop b ps) > leftCount (tallyLoop b ps) then ''Right''
      else if leftCount (tallyLoop b ps) > 0 then ''Left''
      else ''Neither (Sun not visible during flight)'')"
proof -
  have "sunVisible (tallyLoop b ps) = (sunIntervals (tallyLoop b ps) \<noteq> 0)"
    unfolding tallyLoop_def fold_sunVisible fold_sunIntervals
    by (simp add: tally0_def)
  then show ?thesis
    by (simp add: recommendation_def seat_def)
qed

text \<open>
  C2. For the consecutive sample pairs that start with an altitude of at least 0, with
  relativeAngle = (azimuth[i] - heading + 360) mod 360 and heading the initial bearing from
  position i to position i+1, the counters hold the number of pairs whose relative angle
  lies in (45,135] (Right), in (135,225] (Behind), in (225,315] (Left), and above 315 or at
  most 45 (Ahead). The relative angle is always below 360, and it is at least 0 whenever
  azimuth[i] - heading + 360 is, so that the last bucket is then (315,360) with [0,45].
\<close>

theorem quadrant_counts:
  "rightCount (tallyLoop b ps)
     = length (filter (\<lambda>i. 0 \<le> altitude (ps ! i)
                 \<and> 45 < relAngleAt b ps i \<and> relAngleAt b ps i \<le> 135) [0..<length ps - 1])
   \<and> behindCount (tallyLoop b ps)
     = length (filter (\<lambda>i. 0 \<le> altitude (ps ! i)
                 \<and> 135 < relAngleAt b ps i \<and> relAngleAt b ps i \<le> 225) [0..<length ps - 1])
   \<and> leftCount (tallyLoop b ps)
     = length (filter (\<lambda>i. 0 \<le> altitude (ps ! i)
                 \<and> 225 < relAngleAt b ps i \<and> relAngleAt b ps i \<le> 315) [0..<length ps - 1])
   \<and> aheadCount (tallyLoop b ps)
     = length (filter (\<lambda>i. 0 \<le> altitude (ps ! i)
                 \<and> (315 < relAngleAt b ps i \<or> relAngleAt b ps i \<le> 45)) [0..<length ps - 1])
   \<and> relAngleAt b ps i < 360
   \<and> (0 \<le> azimuth (ps ! i)
            - b (lat (ps ! i)) (lon (ps ! i)) (lat (ps ! (i + 1))) (lon (ps ! (i + 1))) + 360
        \<longrightarrow> 0 \<le> relAngleAt b ps i)"
proof -
  have r: "rightCount (tallyLoop b ps)
     = length (filter (\<lambda>i. 0 \<le> altitude (ps ! i)
                 \<and> 45 < relAngleAt b ps i \<and> relAngleAt b ps i \<le> 135) [0..<length ps - 1])"
    unfolding tallyLoop_def fold_rightCount by (simp add: tally0_def)
  have bh: "behindCount (tallyLoop b ps)
     = length (filter (\<lambda>i. 0 \<le> altitude (ps ! i)
                 \<and> 135 < relAngleAt b ps i \<and> relAngleAt b ps i \<le> 225) [0..<length ps - 1])"
    unfolding tallyLoop_def fold_behindCount by (simp add: tally0_def)
  have l: "leftCount (tallyLoop b ps)
     = length (filter (\<lambda>i. 0 \<le> altitude (ps ! i)
                 \<and> 225 < relAngleAt b ps i \<and> relAngleAt b ps i \<le> 315) [0..<length ps - 1])"
    unfolding tallyLoop_def fold_leftCount by (simp add: tally0_def)
  have a: "aheadCount (tallyLoop b ps)
     = length (filter (\<lambda>i. 0 \<le> altitude (ps ! i)
                 \<and> (315 < relAngleAt b ps i \<or> relAngleAt b ps i \<le> 45)) [0..<length ps - 1])"
    unfolding tallyLoop_def fold_aheadCount by (simp add: tally0_def)
  have lt: "relAngleAt b ps i < 360"
    unfolding relAngleAt_def by (rule js_rem_less)
  have ge: "0 \<le> azimuth (ps ! i)
            - b (lat (ps ! i)) (lon (ps ! i)) (lat (ps ! (i + 1))) (lon (ps ! (i + 1))) + 360
        \<longrightarrow> 0 \<le> relAngleAt b ps i"
    unfolding relAngleAt_def by (simp add: js_rem_nonneg)
  from r bh l a lt ge show ?thesis by blast
qed

theorem quadrant_counts_witness:
  "0 \<le> azimuth (northbound 100 ! 0)
        - cardinalBearing (lat (northbound 100 ! 0)) (lon (northbound 100 ! 0))
            (lat (northbound 100 ! (0 + 1))) (lon (northbound 100 ! (0 + 1))) + 360
   \<and> relAngleAt cardinalBearing (northbound 100) 0 = 100
   \<and> rightCount (tallyLoop cardinalBearing (northbound 100)) = 1
   \<and> aheadCount (tallyLoop cardinalBearing (northbound 100)) = 0"
  using quadrant_counts [of cardinalBearing "northbound 100" 0]
  by (simp add: northbound_def cardinalBearing_def relAngleAt_def js_rem_def trunc_def)

text \<open>
  C3, as the code has it. A visible interval whose relative angle is exactly 45 counts as
  Ahead (not Right), and one whose relative angle is exactly 315 counts as Left (not Ahead):
  each bucket contains its upper edge.
\<close>

theorem boundary_angles:
  "(0 \<le> altitude (ps ! i) \<and> relAngleAt b ps i = 45 \<longrightarrow>
      tallyStep b ps i t
        = t\<lparr>sunVisible := True, sunIntervals := sunIntervals t + 1,
             aheadCount := aheadCount t + 1\<rparr>)
   \<and> (0 \<le> altitude (ps ! i) \<and> relAngleAt b ps i = 315 \<longrightarrow>
      tallyStep b ps i t
        = t\<lparr>sunVisible := True, sunIntervals := sunIntervals t + 1,
             leftCount := leftCount t + 1\<rparr>)"
  by (simp add: tallyStep_cases countQuadrant_def)

theorem boundary_angles_witness:
  "0 \<le> altitude (northbound 45 ! 0) \<and> relAngleAt cardinalBearing (northbound 45) 0 = 45
   \<and> tallyStep cardinalBearing (northbound 45) 0 tally0
       = tally0\<lparr>sunVisible := True, sunIntervals := 1, aheadCount := 1\<rparr>
   \<and> 0 \<le> altitude (northbound 315 ! 0) \<and> relAngleAt cardinalBearing (northbound 315) 0 = 315
   \<and> tallyStep cardinalBearing (northbound 315) 0 tally0
       = tally0\<lparr>sunVisible := True, sunIntervals := 1, leftCount := 1\<rparr>"
proof -
  have a45: "0 \<le> altitude (northbound 45 ! 0) \<and> relAngleAt cardinalBearing (northbound 45) 0 = 45"
    by (simp add: northbound_def cardinalBearing_def relAngleAt_def js_rem_def trunc_def)
  have a315: "0 \<le> altitude (northbound 315 ! 0) \<and> relAngleAt cardinalBearing (northbound 315) 0 = 315"
    by (simp add: northbound_def cardinalBearing_def relAngleAt_def js_rem_def trunc_def)
  show ?thesis
    using a45 a315
      boundary_angles [of "northbound 45" 0 cardinalBearing tally0]
      boundary_angles [of "northbound 315" 0 cardinalBearing tally0]
    by (simp add: tally0_def)
qed

text \<open>
  C3, as the claim states it, fails: on a course due north with the sun at azimuth 45 the
  relative angle is exactly 45 and the interval is counted Ahead, not Right; with the sun at
  azimuth 315 the relative angle is exactly 315 and the interval is counted Left, not Ahead.
\<close>

theorem boundary_angles_counterexample:
  "relAngleAt cardinalBearing (northbound 45) 0 = 45
   \<and> rightCount (tallyLoop cardinalBearing (northbound 45)) = 0
   \<and> aheadCount (tallyLoop cardinalBearing (northbound 45)) = 1
   \<and> relAngleAt cardinalBearing (northbound 315) 0 = 315
   \<and> aheadCount (tallyLoop cardinalBearing (northbound 315)) = 0
   \<and> leftCount (tallyLoop cardinalBearing (northbound 315)) = 1"
  by (simp add: tallyLoop_def tallyStep_def countQuadrant_def tally0_def
      northbound_def cardinalBearing_def relAngleAt_def js_rem_def trunc_def)

text \<open>
  C7. After the tally of any sample sequence, the number of visible intervals is the number
  of consecutive pairs that start with an altitude of at least 0, totalIntervals is the
  sample count minus 1, and the pairs that start below the horizon change no counter: the
  loop over the visible pairs alone gives the same tally.
\<close>

theorem interval_counts:
  "sunIntervals (tallyLoop b ps)
     = length (filter (\<lambda>i. 0 \<le> altitude (ps ! i)) [0..<length ps - 1])
   \<and> totalIntervals ps = int (length ps) - 1
   \<and> tallyLoop b ps
     = fold (tallyStep b ps) (filter (\<lambda>i. 0 \<le> altitude (ps ! i)) [0..<length ps - 1]) tally0"
proof -
  have "sunIntervals (tallyLoop b ps)
     = length (filter (\<lambda>i. 0 \<le> altitude (ps ! i)) [0..<length ps - 1])"
    unfolding tallyLoop_def fold_sunIntervals by (simp add: tally0_def)
  moreover have "tallyLoop b ps
     = fold (tallyStep b ps) (filter (\<lambda>i. 0 \<le> altitude (ps ! i)) [0..<length ps - 1]) tally0"
    unfolding tallyLoop_def by (rule fold_skip_hidden)
  ultimately show ?thesis by (simp add: totalIntervals_def)
qed

text \<open>
  C10. Every interval that starts with an altitude of at least 0 increments exactly one of
  the four quadrant counters: one step of the loop raises the sum of the four counters by
  one for such an interval and by nothing otherwise, and lowers no counter. So after the
  tally leftCount + rightCount + aheadCount + behindCount is the number of pairs that
  start with an altitude of at least 0, which is visibleIntervals.
\<close>

theorem counters_sum:
  "leftCount (tallyStep b ps i t) + rightCount (tallyStep b ps i t)
     + aheadCount (tallyStep b ps i t) + behindCount (tallyStep b ps i t)
   = leftCount t + rightCount t + aheadCount t + behindCount t
     + (if 0 \<le> altitude (ps ! i) then 1 else 0)
   \<and> leftCount t \<le> leftCount (tallyStep b ps i t)
   \<and> rightCount t \<le> rightCount (tallyStep b ps i t)
   \<and> aheadCount t \<le> aheadCount (tallyStep b ps i t)
   \<and> behindCount t \<le> behindCount (tallyStep b ps i t)
   \<and> leftCount (tallyLoop b ps) + rightCount (tallyLoop b ps)
       + aheadCount (tallyLoop b ps) + behindCount (tallyLoop b ps)
     = length (filter (\<lambda>i. 0 \<le> altitude (ps ! i)) [0..<length ps - 1])
   \<and> sunIntervals (tallyLoop b ps)
     = length (filter (\<lambda>i. 0 \<le> altitude (ps ! i)) [0..<length ps - 1])"
proof -
  have step: "leftCount (tallyStep b ps i t) + rightCount (tallyStep b ps i t)
     + aheadCount (tallyStep b ps i t) + behindCount (tallyStep b ps i t)
   = leftCount t + rightCount t + aheadCount t + behindCount t
     + (if 0 \<le> altitude (ps ! i) then 1 else 0)"
    by (simp add: tallyStep_cases countQuadrant_total)
  have l: "leftCount t \<le> leftCount (tallyStep b ps i t)"
    by (simp add: tallyStep_cases countQuadrant_left)
  have r: "rightCount t \<le> rightCount (tallyStep b ps i t)"
    by (simp add: tallyStep_cases countQuadrant_right)
  have a: "aheadCount t \<le> aheadCount (tallyStep b ps i t)"
    by (simp add: tallyStep_cases countQuadrant_ahead)
  have bh: "behindCount t \<le> behindCount (tallyStep b ps i t)"
    by (simp add: tallyStep_cases countQuadrant_behind)
  have vis: "sunIntervals (tallyLoop b ps)
     = length (filter (\<lambda>i. 0 \<le> altitude (ps ! i)) [0..<length ps - 1])"
    unfolding tallyLoop_def fold_sunIntervals by (simp add: tally0_def)
  have "leftCount (tallyLoop b ps) + rightCount (tallyLoop b ps)
       + aheadCount (tallyLoop b ps) + behindCount (tallyLoop b ps)
     = sunIntervals (tallyLoop b ps)"
    using fold_total [of b ps "[0..<length ps - 1]" tally0]
    by (simp add: tallyLoop_def tally0_def)
  then have total: "leftCount (tallyLoop b ps) + rightCount (tallyLoop b ps)
       + aheadCount (tallyLoop b ps) + behindCount (tallyLoop b ps)
     = length (filter (\<lambda>i. 0 \<le> altitude (ps ! i)) [0..<length ps - 1])"
    using vis by simp
  from step l r a bh total vis show ?thesis by blast
qed

section \<open>The event loop\<close>

lemma trunc_of_int: "trunc (real_of_int z) = z"
  by (simp add: trunc_def)

lemma sunrise_frac:
  "a < 0 \<Longrightarrow> 0 \<le> q \<Longrightarrow>
   roundDouble (- a / roundDouble (q - a)) = roundDouble (\<bar>a\<bar> / roundDouble \<bar>q - a\<bar>)"
  by simp

lemma sunset_frac:
  "0 \<le> a \<Longrightarrow> q < 0 \<Longrightarrow>
   roundDouble (a / roundDouble (a - q)) = roundDouble (\<bar>a\<bar> / roundDouble \<bar>q - a\<bar>)"
proof -
  assume "0 \<le> a" and "q < 0"
  then have "\<bar>a\<bar> = a" and "\<bar>q - a\<bar> = a - q" by simp_all
  then show ?thesis by simp
qed

lemma eventStep_append:
  "eventStep gt b ps i (evs, prev)
   = (evs @ fst (eventStep gt b ps i ([], prev)), Some (altitude (ps ! i)))"
  by (simp add: eventStep_def Let_def split: option.splits)

lemma eventStep_first:
  "eventStep gt b ps i (evs, None) = (evs, Some (altitude (ps ! i)))"
  by (simp add: eventStep_def Let_def)

lemma fold_eventStep:
  "fold (eventStep gt b ps) [0..<n] ([], None)
   = (concat (map (pairEvents gt b ps) [0..<n - 1]),
      if n = 0 then None else Some (altitude (ps ! (n - 1))))"
proof (induction n)
  case 0
  show ?case by simp
next
  case (Suc n)
  show ?case
  proof (cases n)
    case 0
    then show ?thesis by (simp add: eventStep_first)
  next
    case (Suc m)
    have "fold (eventStep gt b ps) [0..<Suc n] ([], None)
          = eventStep gt b ps n (fold (eventStep gt b ps) [0..<n] ([], None))"
      by simp
    also have "\<dots> = eventStep gt b ps (Suc m)
                      (concat (map (pairEvents gt b ps) [0..<m]), Some (altitude (ps ! m)))"
      using Suc.IH Suc by simp
    also have "\<dots> = (concat (map (pairEvents gt b ps) [0..<m]) @ pairEvents gt b ps m,
                      Some (altitude (ps ! Suc m)))"
      using eventStep_append [of gt b ps "Suc m" "concat (map (pairEvents gt b ps) [0..<m])"
          "Some (altitude (ps ! m))"]
      by (simp add: pairEvents_def)
    finally show ?thesis using Suc by simp
  qed
qed

lemma detectSunEvents_pairs:
  "detectSunEvents gt b ps = concat (map (pairEvents gt b ps) [0..<length ps - 1])"
  by (simp add: detectSunEvents_def fold_eventStep)

lemma map_concat_pairs:
  "(\<And>i. map f (g i) = h i) \<Longrightarrow> map f (concat (map g xs)) = concat (map h xs)"
  by (induction xs) simp_all

lemma pairEvents_type:
  "map ev_type (pairEvents gt b ps i)
   = (if altitude (ps ! i) < 0 \<and> 0 \<le> altitude (ps ! (i + 1)) then [Sunrise]
      else if 0 \<le> altitude (ps ! i) \<and> altitude (ps ! (i + 1)) < 0 then [Sunset]
      else [])"
  by (simp add: pairEvents_def eventStep_def Let_def)

lemma pairEvents_time:
  "map ev_time (pairEvents gt b ps i)
   = (if altitude (ps ! i) < 0 \<and> 0 \<le> altitude (ps ! (i + 1))
      then [if inBracket (sunrise (gt (time (ps ! (i + 1))) (lat (ps ! (i + 1))) (lon (ps ! (i + 1)))))
                 (time (ps ! i)) (time (ps ! (i + 1)))
            then sunrise (gt (time (ps ! (i + 1))) (lat (ps ! (i + 1))) (lon (ps ! (i + 1))))
            else newDate (roundDouble (real_of_int (time (ps ! i))
                   + roundDouble
                       (roundDouble (\<bar>altitude (ps ! i)\<bar>
                          / roundDouble \<bar>altitude (ps ! (i + 1)) - altitude (ps ! i)\<bar>)
                        * roundDouble (real_of_int (time (ps ! (i + 1))) - real_of_int (time (ps ! i))))))]
      else if 0 \<le> altitude (ps ! i) \<and> altitude (ps ! (i + 1)) < 0
      then [if inBracket (sunset (gt (time (ps ! (i + 1))) (lat (ps ! (i + 1))) (lon (ps ! (i + 1)))))
                 (time (ps ! i)) (time (ps ! (i + 1)))
            then sunset (gt (time (ps ! (i + 1))) (lat (ps ! (i + 1))) (lon (ps ! (i + 1))))
            else newDate (roundDouble (real_of_int (time (ps ! i))
                   + roundDouble
                       (roundDouble (\<bar>altitude (ps ! i)\<bar>
                          / roundDouble \<bar>altitude (ps ! (i + 1)) - altitude (ps ! i)\<bar>)
                        * roundDouble (real_of_int (time (ps ! (i + 1))) - real_of_int (time (ps ! i))))))]
      else [])"
proof -
  consider (rise) "altitude (ps ! i) < 0" "0 \<le> altitude (ps ! (i + 1))"
    | (set) "0 \<le> altitude (ps ! i)" "altitude (ps ! (i + 1)) < 0"
    | (none) "\<not> (altitude (ps ! i) < 0 \<and> 0 \<le> altitude (ps ! (i + 1)))"
             "\<not> (0 \<le> altitude (ps ! i) \<and> altitude (ps ! (i + 1)) < 0)"
    by linarith
  then show ?thesis
  proof cases
    case rise
    then show ?thesis
      using sunrise_frac [OF rise]
      by (simp add: pairEvents_def eventStep_def Let_def)
  next
    case set
    then show ?thesis
      using sunset_frac [OF set]
      by (simp add: pairEvents_def eventStep_def Let_def)
  next
    case none
    then show ?thesis
      by (simp add: pairEvents_def eventStep_def Let_def)
  qed
qed

lemma pairEvents_place:
  "map (\<lambda>e. (ev_lat e, ev_lon e, ev_azimuth e, ev_position e)) (pairEvents gt b ps i)
   = (if altitude (ps ! i) < 0 \<and> 0 \<le> altitude (ps ! (i + 1))
         \<or> 0 \<le> altitude (ps ! i) \<and> altitude (ps ! (i + 1)) < 0
      then [(lat (ps ! (i + 1)), lon (ps ! (i + 1)), azimuth (ps ! (i + 1)),
             positionOf (js_rem (azimuth (ps ! (i + 1))
               - (if i + 1 < length ps - 1
                  then b (lat (ps ! (i + 1))) (lon (ps ! (i + 1))) (lat (ps ! (i + 2))) (lon (ps ! (i + 2)))
                  else b (lat (ps ! i)) (lon (ps ! i)) (lat (ps ! (i + 1))) (lon (ps ! (i + 1))))
               + 360) 360))]
      else [])"
  by (simp add: pairEvents_def eventStep_def Let_def add.commute)

text \<open>
  C5. Scanning the samples pairwise, the detector emits one sunrise event for the pair
  (i, i+1) exactly when altitude[i] < 0 and altitude[i+1] >= 0, one sunset event exactly
  when altitude[i] >= 0 and altitude[i+1] < 0, and nothing for any other pair; the events
  come in the order of the pairs.
\<close>

theorem events_detected:
  "map ev_type (detectSunEvents gt b ps)
   = concat (map (\<lambda>i. if altitude (ps ! i) < 0 \<and> 0 \<le> altitude (ps ! (i + 1)) then [Sunrise]
                       else if 0 \<le> altitude (ps ! i) \<and> altitude (ps ! (i + 1)) < 0 then [Sunset]
                       else [])
               [0..<length ps - 1])"
  unfolding detectSunEvents_pairs
  by (rule map_concat_pairs) (rule pairEvents_type)

text \<open>
  C4, as the code has it. For every crossing between samples i and i+1: when the sunrise
  (respectively sunset) time of the ephemeris at the later sample is present and lies in
  [time[i], time[i+1]], it is the crossing time; otherwise the crossing time is the date
  made from time[i] + fraction*(time[i+1] - time[i]), fraction = |altitude[i]| /
  |altitude[i+1] - altitude[i]|, where every operation is rounded to a double and the date
  drops the fraction of a millisecond of the result. For the altitudes -5 and +3 over a
  bracket of ten minutes with no usable ephemeris time it is the start of the bracket plus
  (5/8)*10 minutes, that is 375000 ms, exactly.
\<close>

theorem crossing_time:
  "map ev_time (detectSunEvents gt b ps)
   = concat (map (\<lambda>i.
       if altitude (ps ! i) < 0 \<and> 0 \<le> altitude (ps ! (i + 1))
       then [if inBracket (sunrise (gt (time (ps ! (i + 1))) (lat (ps ! (i + 1))) (lon (ps ! (i + 1)))))
                  (time (ps ! i)) (time (ps ! (i + 1)))
             then sunrise (gt (time (ps ! (i + 1))) (lat (ps ! (i + 1))) (lon (ps ! (i + 1))))
             else newDate (roundDouble (real_of_int (time (ps ! i))
                    + roundDouble
                        (roundDouble (\<bar>altitude (ps ! i)\<bar>
                           / roundDouble \<bar>altitude (ps ! (i + 1)) - altitude (ps ! i)\<bar>)
                         * roundDouble (real_of_int (time (ps ! (i + 1))) - real_of_int (time (ps ! i))))))]
       else if 0 \<le> altitude (ps ! i) \<and> altitude (ps ! (i + 1)) < 0
       then [if inBracket (sunset (gt (time (ps ! (i + 1))) (lat (ps ! (i + 1))) (lon (ps ! (i + 1)))))
                  (time (ps ! i)) (time (ps ! (i + 1)))
             then sunset (gt (time (ps ! (i + 1))) (lat (ps ! (i + 1))) (lon (ps ! (i + 1))))
             else newDate (roundDouble (real_of_int (time (ps ! i))
                    + roundDouble
                        (roundDouble (\<bar>altitude (ps ! i)\<bar>
                           / roundDouble \<bar>altitude (ps ! (i + 1)) - altitude (ps ! i)\<bar>)
                         * roundDouble (real_of_int (time (ps ! (i + 1))) - real_of_int (time (ps ! i))))))]
       else [])
     [0..<length ps - 1])
   \<and> (altitude p0 = - 5 \<and> altitude p1 = 3 \<and> time p1 = time p0 + 600000
        \<and> \<not> inBracket (sunrise (gt (time p1) (lat p1) (lon p1))) (time p0) (time p1)
        \<and> \<bar>time p0 + 375000\<bar> \<le> 8640000000000000
      \<longrightarrow> map ev_time (detectSunEvents gt b [p0, p1]) = [Some (time p0 + 375000)])"
proof -
  have general: "map ev_time (detectSunEvents gt b qs)
   = concat (map (\<lambda>i.
       if altitude (qs ! i) < 0 \<and> 0 \<le> altitude (qs ! (i + 1))
       then [if inBracket (sunrise (gt (time (qs ! (i + 1))) (lat (qs ! (i + 1))) (lon (qs ! (i + 1)))))
                  (time (qs ! i)) (time (qs ! (i + 1)))
             then sunrise (gt (time (qs ! (i + 1))) (lat (qs ! (i + 1))) (lon (qs ! (i + 1))))
             else newDate (roundDouble (real_of_int (time (qs ! i))
                    + roundDouble
                        (roundDouble (\<bar>altitude (qs ! i)\<bar>
                           / roundDouble \<bar>altitude (qs ! (i + 1)) - altitude (qs ! i)\<bar>)
                         * roundDouble (real_of_int (time (qs ! (i + 1))) - real_of_int (time (qs ! i))))))]
       else if 0 \<le> altitude (qs ! i) \<and> altitude (qs ! (i + 1)) < 0
       then [if inBracket (sunset (gt (time (qs ! (i + 1))) (lat (qs ! (i + 1))) (lon (qs ! (i + 1)))))
                  (time (qs ! i)) (time (qs ! (i + 1)))
             then sunset (gt (time (qs ! (i + 1))) (lat (qs ! (i + 1))) (lon (qs ! (i + 1))))
             else newDate (roundDouble (real_of_int (time (qs ! i))
                    + roundDouble
                        (roundDouble (\<bar>altitude (qs ! i)\<bar>
                           / roundDouble \<bar>altitude (qs ! (i + 1)) - altitude (qs ! i)\<bar>)
                         * roundDouble (real_of_int (time (qs ! (i + 1))) - real_of_int (time (qs ! i))))))]
       else [])
     [0..<length qs - 1])" for qs
    unfolding detectSunEvents_pairs
    by (rule map_concat_pairs) (rule pairEvents_time)
  have example: "map ev_time (detectSunEvents gt b [p0, p1]) = [Some (time p0 + 375000)]"
    if h: "altitude p0 = - 5" "altitude p1 = 3" "time p1 = time p0 + 600000"
      "\<not> inBracket (sunrise (gt (time p1) (lat p1) (lon p1))) (time p0) (time p1)"
      "\<bar>time p0 + 375000\<bar> \<le> 8640000000000000"
  proof -
    have r8: "roundDouble 8 = 8"
      using roundDouble_of_int [of 8] by simp
    have rq: "roundDouble (5 / 8) = 5 / 8"
      by (simp add: roundDouble_down [of 1] roundEven_def)
    have rd: "roundDouble 600000 = 600000"
      using roundDouble_of_int [of 600000] by simp
    have rp: "roundDouble 375000 = 375000"
      using roundDouble_of_int [of 375000] by simp
    have small: "\<bar>time p0 + 375000\<bar> < 2 ^ 53"
      using h(5) by simp
    have rs: "roundDouble (real_of_int (time p0) + 375000) = real_of_int (time p0 + 375000)"
      using roundDouble_of_int [OF small] by simp
    have "map ev_time (detectSunEvents gt b [p0, p1])
          = [newDate (roundDouble (real_of_int (time p0)
               + roundDouble (roundDouble (5 / roundDouble 8) * roundDouble 600000)))]"
      using h by (simp add: general [of "[p0, p1]"])
    also have "\<dots> = [newDate (real_of_int (time p0 + 375000))]"
      by (simp add: r8 rq rd rp rs)
    also have "newDate (real_of_int (time p0 + 375000)) = Some (time p0 + 375000)"
    proof -
      have "\<bar>real_of_int (time p0 + 375000)\<bar> \<le> 8640000000000000"
        using h(5) by linarith
      then show ?thesis
        unfolding newDate_def trunc_of_int by simp
    qed
    finally show ?thesis .
  qed
  from general [of ps] example show ?thesis by blast
qed

theorem crossing_time_witness:
  "altitude (dawn (- 5) 3 ! 0) = - 5 \<and> altitude (dawn (- 5) 3 ! 1) = 3
   \<and> time (dawn (- 5) 3 ! 1) = time (dawn (- 5) 3 ! 0) + 600000
   \<and> \<not> inBracket (sunrise (noTimes (time (dawn (- 5) 3 ! 1)) (lat (dawn (- 5) 3 ! 1))
                      (lon (dawn (- 5) 3 ! 1))))
          (time (dawn (- 5) 3 ! 0)) (time (dawn (- 5) 3 ! 1))
   \<and> \<bar>time (dawn (- 5) 3 ! 0) + 375000\<bar> \<le> 8640000000000000
   \<and> map ev_time (detectSunEvents noTimes cardinalBearing (dawn (- 5) 3)) = [Some 375000]"
  using crossing_time [of noTimes cardinalBearing "dawn (- 5) 3"
      "\<lparr>lat = 0, lon = 0, time = 0, altitude = - 5, azimuth = 90\<rparr>"
      "\<lparr>lat = 0, lon = 10, time = 600000, altitude = 3, azimuth = 90\<rparr>", THEN conjunct2]
  by (simp add: dawn_def noTimes_def inBracket_def)

text \<open>
  C4, as the claim states it, fails. For the altitudes -11 and +4 over a bracket of ten
  minutes that starts at 0 ms, with no ephemeris time, the instant of the claim is
  (11/15)*600000 = 440000 ms, but the quotient 11/15 is rounded to a double below it, the
  product is 439999.99999999994, and the crossing time is 439999 ms. For the altitudes
  -1/64 and 127/64 every operation is exact, the instant is 4687.5 ms, and the crossing
  time is 4687 ms.
\<close>

theorem crossing_time_counterexample:
  "map ev_time (detectSunEvents noTimes cardinalBearing (dawn (- 11) 4)) = [Some 439999]
   \<and> real_of_int (time (dawn (- 11) 4 ! 0))
       + \<bar>altitude (dawn (- 11) 4 ! 0)\<bar>
         / \<bar>altitude (dawn (- 11) 4 ! 1) - altitude (dawn (- 11) 4 ! 0)\<bar>
         * real_of_int (time (dawn (- 11) 4 ! 1) - time (dawn (- 11) 4 ! 0))
     = real_of_int 440000
   \<and> map ev_time (detectSunEvents noTimes cardinalBearing (dawn (- 1 / 64) (127 / 64)))
     = [Some 4687]
   \<and> real_of_int (time (dawn (- 1 / 64) (127 / 64) ! 0))
       + \<bar>altitude (dawn (- 1 / 64) (127 / 64) ! 0)\<bar>
         / \<bar>altitude (dawn (- 1 / 64) (127 / 64) ! 1) - altitude (dawn (- 1 / 64) (127 / 64) ! 0)\<bar>
         * real_of_int (time (dawn (- 1 / 64) (127 / 64) ! 1) - time (dawn (- 1 / 64) (127 / 64) ! 0))
     = 9375 / 2"
proof -
  have r15: "roundDouble 15 = 15"
    using roundDouble_of_int [of 15] by simp
  have rd: "roundDouble 600000 = 600000"
    using roundDouble_of_int [of 600000] by simp
  have rq: "roundDouble (11 / 15) = 6605279453476727 / 9007199254740992"
    by (simp add: roundDouble_down [of 1] roundEven_def)
  have rp: "roundDouble (61924494876344315625 / 140737488355328)
            = 7559142440959999 / 17179869184"
    by (simp add: roundDouble_up [of 18] roundEven_def)
  have rs: "roundDouble (7559142440959999 / 17179869184) = 7559142440959999 / 17179869184"
    by (simp add: roundDouble_up [of 18] roundEven_def)
  have t: "newDate (7559142440959999 / 17179869184) = Some 439999"
    by (simp add: newDate_def trunc_def)
  have first: "map ev_time (detectSunEvents noTimes cardinalBearing (dawn (- 11) 4))
               = [Some 439999]"
    by (simp add: detectSunEvents_def eventStep_def dawn_def noTimes_def inBracket_def Let_def
        r15 rd rq) (simp add: rp rs t)
  have r2: "roundDouble 2 = 2"
    using roundDouble_of_int [of 2] by simp
  have rq2: "roundDouble (1 / 128) = 1 / 128"
    by (simp add: roundDouble_down [of 7] roundEven_def)
  have rp2: "roundDouble (9375 / 2) = 9375 / 2"
    by (simp add: roundDouble_up [of 12] roundEven_def)
  have t2: "newDate (9375 / 2) = Some 4687"
    by (simp add: newDate_def trunc_def)
  have second: "map ev_time (detectSunEvents noTimes cardinalBearing (dawn (- 1 / 64) (127 / 64)))
               = [Some 4687]"
    by (simp add: detectSunEvents_def eventStep_def dawn_def noTimes_def inBracket_def Let_def
        r2 rd rq2) (simp add: rp2 t2)
  have exact1: "real_of_int (time (dawn (- 11) 4 ! 0))
       + \<bar>altitude (dawn (- 11) 4 ! 0)\<bar>
         / \<bar>altitude (dawn (- 11) 4 ! 1) - altitude (dawn (- 11) 4 ! 0)\<bar>
         * real_of_int (time (dawn (- 11) 4 ! 1) - time (dawn (- 11) 4 ! 0))
     = real_of_int 440000"
    by (simp add: dawn_def)
  have exact2: "real_of_int (time (dawn (- 1 / 64) (127 / 64) ! 0))
       + \<bar>altitude (dawn (- 1 / 64) (127 / 64) ! 0)\<bar>
         / \<bar>altitude (dawn (- 1 / 64) (127 / 64) ! 1) - altitude (dawn (- 1 / 64) (127 / 64) ! 0)\<bar>
         * real_of_int (time (dawn (- 1 / 64) (127 / 64) ! 1) - time (dawn (- 1 / 64) (127 / 64) ! 0))
     = 9375 / 2"
    by (simp add: dawn_def)
  from first exact1 second exact2 show ?thesis by blast
qed

text \<open>
  At times of the present epoch the rounding of the sum decides the millisecond: for the
  altitudes -0.63 and 0.45, as doubles, from 1721649600000 ms the product is
  349999.99999999994, the sum is rounded to 1721649950000, and that is the crossing time.
\<close>

lemma crossing_time_epoch:
  "map ev_time (detectSunEvents noTimes cardinalBearing
     [\<lparr>lat = 0, lon = 0, time = 1721649600000,
       altitude = - 5674535530486825 / 9007199254740992, azimuth = 90\<rparr>,
      \<lparr>lat = 0, lon = 10, time = 1721650200000,
       altitude = 8106479329266893 / 18014398509481984, azimuth = 90\<rparr>])
   = [Some 1721649950000]"
  by (simp add: detectSunEvents_def eventStep_def noTimes_def inBracket_def Let_def
      roundDouble_up [of 0] roundDouble_up [of 19] roundDouble_up [of 18] roundDouble_up [of 40]
      roundDouble_down [of 1] roundEven_def newDate_def trunc_def)

text \<open>
  C6, as the code has it. For every event between the samples i and i+1, the position and
  the azimuth of the event are those of the later sample i+1, and the label follows the
  quadrant rule for the azimuth of the later sample against the heading from the later
  sample i+1 to the sample i+2 after it; only when the later sample is the last one is the
  heading the one from sample i to sample i+1.
\<close>

theorem event_place:
  "map (\<lambda>e. (ev_lat e, ev_lon e, ev_azimuth e, ev_position e)) (detectSunEvents gt b ps)
   = concat (map (\<lambda>i.
       if altitude (ps ! i) < 0 \<and> 0 \<le> altitude (ps ! (i + 1))
          \<or> 0 \<le> altitude (ps ! i) \<and> altitude (ps ! (i + 1)) < 0
       then [(lat (ps ! (i + 1)), lon (ps ! (i + 1)), azimuth (ps ! (i + 1)),
              positionOf (js_rem (azimuth (ps ! (i + 1))
                - (if i + 1 < length ps - 1
                   then b (lat (ps ! (i + 1))) (lon (ps ! (i + 1)))
                          (lat (ps ! (i + 2))) (lon (ps ! (i + 2)))
                   else b (lat (ps ! i)) (lon (ps ! i))
                          (lat (ps ! (i + 1))) (lon (ps ! (i + 1))))
                + 360) 360))]
       else [])
     [0..<length ps - 1])"
  unfolding detectSunEvents_pairs
  by (rule map_concat_pairs) (rule pairEvents_place)

text \<open>
  C6, as the claim states it, fails: flying due east and then due north while the sun rises
  due east between the first two samples, the heading between the bracketing samples is 90
  and the quadrant rule gives Ahead for the relative angle 0, but the event is labelled
  Right, from the heading 0 of the next leg.
\<close>

theorem event_place_counterexample:
  "map ev_position (detectSunEvents noTimes cardinalBearing risingEast) = [''Right'']
   \<and> positionOf (js_rem (azimuth (risingEast ! 1)
        - cardinalBearing (lat (risingEast ! 0)) (lon (risingEast ! 0))
            (lat (risingEast ! 1)) (lon (risingEast ! 1))
        + 360) 360) = ''Ahead''"
  by (simp add: detectSunEvents_def eventStep_def risingEast_def noTimes_def inBracket_def
      cardinalBearing_def positionOf_def js_rem_def trunc_def newDate_def Let_def)

section \<open>Splitting the path\<close>

lemma segmentStep_inv: "segInv s \<Longrightarrow> segInv (segmentStep p s)"
  by (cases s) (auto simp add: segInv_def segmentStep_def Let_def successively_append_iff)

lemma segmentStep_concat:
  "concat (fst (segmentStep p s)) @ snd (segmentStep p s) = concat (fst s) @ snd s @ [p]"
  by (simp add: segmentStep_def Let_def)

lemma fold_segmentStep_inv: "segInv s \<Longrightarrow> segInv (fold segmentStep ps s)"
  by (induction ps arbitrary: s) (simp_all add: segmentStep_inv)

lemma fold_segmentStep_concat:
  "concat (fst (fold segmentStep ps s)) @ snd (fold segmentStep ps s) = concat (fst s) @ snd s @ ps"
  by (induction ps arbitrary: s) (simp_all add: segmentStep_concat)

lemma segInv_init: "segInv ([], [])"
  by (simp add: segInv_def)

text \<open>
  C8. For every sequence of points, the segments in order concatenate to the sequence, no
  segment is empty, no segment has two consecutive points whose longitudes differ by more
  than 180, and the last point of a segment and the first point of the next one always
  differ by more than 180 in longitude: a new segment starts exactly at the steps above
  180. The path of \<^verbatim>\<open>createFlightPath\<close> is split in this way.
\<close>

theorem segments_split_at_date_line:
  "concat (segmentPoints ps) = ps
   \<and> (\<forall>seg \<in> set (segmentPoints ps).
         seg \<noteq> [] \<and> successively (\<lambda>p q. \<bar>snd q - snd p\<bar> \<le> 180) seg)
   \<and> successively (\<lambda>a b. \<bar>snd (hd b) - snd (last a)\<bar> > 180) (segmentPoints ps)
   \<and> concat (createFlightPath igc lat1 lon1 lat2 lon2)
       = map (\<lambda>i. igc lat1 lon1 lat2 lon2 (real i / 20)) [0..<21]"
proof -
  have general: "concat (segmentPoints qs) = qs
      \<and> (\<forall>seg \<in> set (segmentPoints qs).
            seg \<noteq> [] \<and> successively (\<lambda>p q. \<bar>snd q - snd p\<bar> \<le> 180) seg)
      \<and> successively (\<lambda>a b. \<bar>snd (hd b) - snd (last a)\<bar> > 180) (segmentPoints qs)" for qs
  proof -
    define s where "s = fold segmentStep qs ([], [])"
    have inv: "segInv s"
      unfolding s_def by (rule fold_segmentStep_inv [OF segInv_init])
    have cc: "concat (fst s) @ snd s = qs"
      unfolding s_def using fold_segmentStep_concat [of qs "([], [])"] by simp
    have sp: "segmentPoints qs = (if snd s = [] then fst s else fst s @ [snd s])"
      by (simp add: segmentPoints_def s_def Let_def)
    have c1: "concat (segmentPoints qs) = qs"
      using cc by (auto simp add: sp)
    have c2: "\<forall>seg \<in> set (segmentPoints qs).
           seg \<noteq> [] \<and> successively (\<lambda>p q. \<bar>snd q - snd p\<bar> \<le> 180) seg"
      using inv by (auto simp add: sp segInv_def)
    have c3: "successively (\<lambda>a b. \<bar>snd (hd b) - snd (last a)\<bar> > 180) (segmentPoints qs)"
      using inv by (auto simp add: sp segInv_def)
    from c1 c2 c3 show ?thesis by blast
  qed
  have path: "concat (createFlightPath igc lat1 lon1 lat2 lon2)
       = map (\<lambda>i. igc lat1 lon1 lat2 lon2 (real i / 20)) [0..<21]"
    unfolding createFlightPath_def Let_def using general by simp
  from general [of ps] path show ?thesis by blast
qed

theorem segments_split_at_date_line_witness:
  "segmentPoints crossing = [[(0, 170), (1, 179)], [(2, - 179), (3, - 170)]]
   \<and> concat (segmentPoints crossing) = crossing
   \<and> [(0, 170), (1, 179)] \<in> set (segmentPoints crossing)
   \<and> successively (\<lambda>p q. \<bar>snd q - snd p\<bar> \<le> 180) [(0, 170), (1, 179) :: point]
   \<and> successively (\<lambda>a b. \<bar>snd (hd b) - snd (last a)\<bar> > 180) (segmentPoints crossing)"
proof -
  have ev: "segmentPoints crossing = [[(0, 170), (1, 179)], [(2, - 179), (3, - 170)]]"
    by (simp add: segmentPoints_def segmentStep_def crossing_def)
  have mem: "[(0, 170), (1, 179)] \<in> set (segmentPoints crossing)"
    by (simp add: ev)
  show ?thesis
    using ev mem segments_split_at_date_line [of crossing]
    by blast
qed

section \<open>The sampler of the specification\<close>

lemma sampleFraction_last:
  assumes d: "0 < d" and iv: "0 < iv"
  shows "sampleFraction d iv (nat \<lceil>d * 60 / iv\<rceil>) = 1"
proof -
  have up: "d * 60 / iv \<le> real_of_int \<lceil>d * 60 / iv\<rceil>" by linarith
  have "0 < d * 60 / iv" using d iv by simp
  then have "0 \<le> \<lceil>d * 60 / iv\<rceil>" by simp
  with up have "d * 60 / iv \<le> real (nat \<lceil>d * 60 / iv\<rceil>)" by simp
  then have "d * 60 \<le> real (nat \<lceil>d * 60 / iv\<rceil>) * iv"
    using iv by (simp add: pos_divide_le_eq)
  then have "1 \<le> real (nat \<lceil>d * 60 / iv\<rceil>) * iv / (d * 60)"
    using d by (simp add: pos_le_divide_eq)
  then show ?thesis by (simp add: sampleFraction_def)
qed

text \<open>
  C9. For every origin, destination and departure instant, every positive durationHours
  and every positive intervalMinutes, sampleRoute returns a sequence of
  ceil(durationHours*60/intervalMinutes) + 1 samples whose last sample has the fraction 1
  exactly: its position is the great-circle point at fraction 1 and its timestamp is
  departureUTC + durationHours, whether or not durationHours*60 is a multiple of
  intervalMinutes.
\<close>

theorem sampleRoute_arrival:
  assumes d: "0 < durationHours" and iv: "0 < intervalMinutes"
  shows "\<exists>samples.
           sampleRoute gcp solar origin destination departureUTC durationHours intervalMinutes
             = Inr samples
           \<and> length samples = nat \<lceil>durationHours * 60 / intervalMinutes\<rceil> + 1
           \<and> sampleFraction durationHours intervalMinutes (length samples - 1) = 1
           \<and> position (last samples) = gcp origin destination 1
           \<and> timestamp (last samples) = departureUTC + durationHours"
proof -
  define n where "n = nat \<lceil>durationHours * 60 / intervalMinutes\<rceil>"
  define f where "f = (\<lambda>i. let fraction = sampleFraction durationHours intervalMinutes i;
                                  pos = gcp origin destination fraction;
                                  ts = departureUTC + fraction * durationHours;
                                  sun = solar ts pos
                              in \<lparr>position = pos, timestamp = ts,
                                  sunAltitude = fst sun, sunAzimuth = snd sun\<rparr>)"
  have fr: "sampleFraction durationHours intervalMinutes n = 1"
    unfolding n_def by (rule sampleFraction_last [OF d iv])
  have run: "sampleRoute gcp solar origin destination departureUTC durationHours intervalMinutes
             = Inr (map f [0..<n + 1])"
    using d iv by (simp add: sampleRoute_def n_def f_def Let_def)
  have len: "length (map f [0..<n + 1]) = n + 1" by simp
  have lst: "last (map f [0..<n + 1]) = f n" by simp
  have pos: "position (f n) = gcp origin destination 1"
    by (simp add: f_def Let_def fr)
  have ts: "timestamp (f n) = departureUTC + durationHours"
    by (simp add: f_def Let_def fr)
  show ?thesis
    using run len lst pos ts fr unfolding n_def [symmetric]
    by (intro exI [of _ "map f [0..<n + 1]"]) (simp del: upt_Suc map_append)
qed

theorem sampleRoute_arrival_witness:
  "(0::real) < 1 \<and> (0::real) < 7
   \<and> (\<exists>samples. sampleRoute meridianPoint fixedSun (0, 0) (10, 0) 100 1 7 = Inr samples
        \<and> length samples = 10
        \<and> sampleFraction 1 7 (length samples - 1) = 1
        \<and> position (last samples) = (10, 0)
        \<and> timestamp (last samples) = 101)"
proof -
  have c: "nat \<lceil>(1::real) * 60 / 7\<rceil> = 9" by simp
  show ?thesis
    using sampleRoute_arrival [of 1 7 meridianPoint fixedSun "(0, 0)" "(10, 0)" 100]
    by (simp add: meridianPoint_def c)
qed

end
